theory Spec2Isabelle
  imports Complex_Main "HOL-Library.Multiset" "HOL-Library.Word"
begin

section \<open>Identifiers and the identifier library\<close>

text \<open>
  The services receive every id as a string and hand it to the store's identifier
  library: \<^verbatim>\<open>Types.ObjectId.isValid(s)\<close> decides whether the string is well formed,
  \<^verbatim>\<open>new Types.ObjectId(s)\<close> (and the cast the store applies to a query value) builds
  the identifier, and \<^verbatim>\<open>id.toString()\<close> prints it. The library is not part of the
  repository, so \<open>isValid\<close> and \<open>mkId\<close> are parameters of every operation; nothing is
  assumed about them beyond what a theorem states.
\<close>

datatype objectId = ObjectId string

fun toString :: "objectId \<Rightarrow> string" where
  "toString (ObjectId h) = h"

record idlib =
  isValid :: "string \<Rightarrow> bool"
  mkId :: "string \<Rightarrow> objectId"

section \<open>Errors\<close>

text \<open>
  \<open>Error m\<close> is \<^verbatim>\<open>throw new Error(m)\<close> with the message of the source; every
  error the chat service throws itself is of this form. \<open>StatusError m n\<close> is an
  Error to which the thrower has attached \<^verbatim>\<open>statusCode = n\<close>, as the user service
  does for a wrong password (401). \<open>ValidationError p\<close> is the rejection of a
  document by the schema validators of path \<open>p\<close> on save, \<open>DuplicateKey\<close> the store's
  error with code 11000, \<open>CastError\<close> the rejection of a malformed id by a query,
  and \<open>TypeError\<close> the error of calling something that is not a function.
\<close>

datatype error =
    Error string
  | StatusError string nat
  | ValidationError string
  | DuplicateKey
  | CastError
  | TypeError

fun errorCode :: "error \<Rightarrow> nat option" where
  "errorCode DuplicateKey = Some 11000"
| "errorCode _ = None"

text \<open>The \<^verbatim>\<open>statusCode\<close> property of a thrown value.\<close>

fun statusCode :: "error \<Rightarrow> nat option" where
  "statusCode (StatusError m n) = Some n"
| "statusCode _ = None"

text \<open>
  The error handling middleware of the server answers an error that reaches it with
  \<^verbatim>\<open>err.statusCode || 500\<close>.
\<close>

definition errorStatus :: "error \<Rightarrow> nat" where
  "errorStatus err =
     (case statusCode err of
        None \<Rightarrow> 500
      | Some n \<Rightarrow> if n = 0 then 500 else n)"

section \<open>Documents and the store\<close>

datatype status = Pending | Accepted | Rejected

fun statusString :: "status \<Rightarrow> string" where
  "statusString Pending = ''pending''"
| "statusString Accepted = ''accepted''"
| "statusString Rejected = ''rejected''"

record user =
  user_id :: objectId
  username :: string

record chat =
  chat_id :: objectId
  participants :: "objectId list"
  status :: status
  initiatedBy :: objectId
  createdAt :: int
  acceptedAt :: "int option"

text \<open>
  The content of a message is a JavaScript string: a sequence of UTF-16 code units,
  whose length is the number of code units.
\<close>

type_synonym codeUnit = "16 word"

record message =
  m_id :: objectId
  m_chatId :: objectId
  m_senderId :: objectId
  m_content :: "codeUnit list"
  m_replyTo :: "objectId option"
  m_createdAt :: int
  m_readAt :: "int option"

record store =
  users :: "user list"
  chats :: "chat list"
  messages :: "message list"

record chatResponse =
  r_id :: string
  r_participants :: "string list"
  r_status :: status
  r_initiatedBy :: string
  r_createdAt :: int
  r_acceptedAt :: "int option"

record messageResponse =
  mr_id :: string
  mr_chatId :: string
  mr_senderId :: string
  mr_content :: "codeUnit list"
  mr_createdAt :: int
  mr_readAt :: "int option"

record createChatData =
  fromUserId :: string
  toUserId :: string

record paginationQuery =
  q_page :: "int option"
  q_limit :: "int option"

record paginatedResponse =
  p_data :: "messageResponse list"
  p_page :: int
  p_limit :: int
  p_total :: nat
  p_totalPages :: int

section \<open>Store primitives\<close>

text \<open>
  A query casts the id it is given: a malformed id is a \<open>CastError\<close>, a well-formed
  one is compared with the stored identifiers. Documents are kept in insertion
  order; \<^verbatim>\<open>findOne\<close> and \<^verbatim>\<open>findById\<close> return the first match.
\<close>

definition castId :: "idlib \<Rightarrow> string \<Rightarrow> error + objectId" where
  "castId L s = (if isValid L s then Inr (mkId L s) else Inl CastError)"

definition findUserById :: "idlib \<Rightarrow> user list \<Rightarrow> string \<Rightarrow> error + user option" where
  "findUserById L us i =
     (case castId L i of
        Inl e \<Rightarrow> Inl e
      | Inr oid \<Rightarrow> Inr (find (\<lambda>u. user_id u = oid) us))"

definition findChatById :: "idlib \<Rightarrow> chat list \<Rightarrow> string \<Rightarrow> error + chat option" where
  "findChatById L cs i =
     (case castId L i of
        Inl e \<Rightarrow> Inl e
      | Inr oid \<Rightarrow> Inr (find (\<lambda>c. chat_id c = oid) cs))"

text \<open>\<^verbatim>\<open>Chat.findOne({ participants: { $all: [a, b] } })\<close>.\<close>

definition findOneChatAll :: "idlib \<Rightarrow> chat list \<Rightarrow> string \<Rightarrow> string \<Rightarrow> error + chat option" where
  "findOneChatAll L cs a b =
     (case castId L a of
        Inl e \<Rightarrow> Inl e
      | Inr x \<Rightarrow>
          (case castId L b of
             Inl e \<Rightarrow> Inl e
           | Inr y \<Rightarrow>
               Inr (find (\<lambda>c. x \<in> set (participants c) \<and> y \<in> set (participants c)) cs)))"

text \<open>
  The validator of the chat schema: exactly two participants, different from each
  other.
\<close>

fun participantsValid :: "objectId list \<Rightarrow> bool" where
  "participantsValid [a, b] = (toString a \<noteq> toString b)"
| "participantsValid _ = False"

text \<open>Saving a new chat: the validators run first, then the insert.\<close>

definition insertChat :: "chat \<Rightarrow> chat list \<Rightarrow> error + chat list" where
  "insertChat c cs =
     (if \<not> participantsValid (participants c) then Inl (ValidationError ''participants'')
      else if list_ex (\<lambda>d. chat_id d = chat_id c) cs then Inl DuplicateKey
      else Inr (cs @ [c]))"

text \<open>Saving a loaded chat writes it over the stored document with its id.\<close>

fun updateChat :: "chat \<Rightarrow> chat list \<Rightarrow> chat list" where
  "updateChat c [] = []"
| "updateChat c (d # ds) = (if chat_id d = chat_id c then c # ds else d # updateChat c ds)"

text \<open>
  The message schema: content is required, trimmed, of 1 to 5000 characters.
  \<^verbatim>\<open>String.prototype.trim\<close>, which the schema's trim setter applies as well,
  removes the white space and line terminators of ECMAScript at both ends: TAB, LF,
  VT, FF, CR, SPACE, NO-BREAK SPACE, the other space separators of Unicode, LINE
  and PARAGRAPH SEPARATOR, and the byte order mark.
\<close>

definition isSpace :: "codeUnit \<Rightarrow> bool" where
  "isSpace u =
     (u \<in> set [0x0009, 0x000A, 0x000B, 0x000C, 0x000D, 0x0020, 0x00A0, 0x1680,
                 0x2000, 0x2001, 0x2002, 0x2003, 0x2004, 0x2005, 0x2006, 0x2007,
                 0x2008, 0x2009, 0x200A, 0x2028, 0x2029, 0x202F, 0x205F, 0x3000, 0xFEFF])"

definition trim :: "codeUnit list \<Rightarrow> codeUnit list" where
  "trim s = rev (dropWhile isSpace (rev (dropWhile isSpace s)))"

definition insertMessage :: "message \<Rightarrow> message list \<Rightarrow> error + message \<times> message list" where
  "insertMessage m ms =
     (if trim (m_content m) = [] \<or> 5000 < length (trim (m_content m))
      then Inl (ValidationError ''content'')
      else if list_ex (\<lambda>d. m_id d = m_id m) ms then Inl DuplicateKey
      else (let saved = m\<lparr>m_content := trim (m_content m)\<rparr> in Inr (saved, ms @ [saved])))"

section \<open>User service\<close>

definition userExists :: "idlib \<Rightarrow> store \<Rightarrow> string \<Rightarrow> error + bool" where
  "userExists L s userId =
     (if \<not> isValid L userId then Inr False
      else (case findUserById L (users s) userId of
              Inl e \<Rightarrow> Inl e
            | Inr found \<Rightarrow> Inr (found \<noteq> None)))"

section \<open>Chat service\<close>

definition toChatResponse :: "chat \<Rightarrow> chatResponse" where
  "toChatResponse c =
     \<lparr>r_id = toString (chat_id c),
      r_participants = map toString (participants c),
      r_status = status c,
      r_initiatedBy = toString (initiatedBy c),
      r_createdAt = createdAt c,
      r_acceptedAt = acceptedAt c\<rparr>"

text \<open>
  \<open>createChatRequest\<close>. The identifier of the new document and the clock are inputs:
  \<open>newId\<close> is the id the new chat receives, \<open>now\<close> the value of \<^verbatim>\<open>Date.now\<close>.
\<close>

definition createChatRequest ::
  "idlib \<Rightarrow> objectId \<Rightarrow> int \<Rightarrow> store \<Rightarrow> createChatData \<Rightarrow> (error + chatResponse) \<times> store" where
  "createChatRequest L newId now s d =
     (if \<not> isValid L (fromUserId d) \<or> \<not> isValid L (toUserId d)
      then (Inl (Error ''Invalid user ID''), s)
      else if fromUserId d = toUserId d
      then (Inl (Error ''Cannot create chat with yourself''), s)
      else
        (case userExists L s (fromUserId d) of
          Inl e \<Rightarrow> (Inl e, s)
        | Inr fromUserExists \<Rightarrow>
        (case userExists L s (toUserId d) of
          Inl e \<Rightarrow> (Inl e, s)
        | Inr toUserExists \<Rightarrow>
        (if \<not> fromUserExists \<or> \<not> toUserExists
         then (Inl (Error ''One or both users do not exist''), s)
         else
          (case findOneChatAll L (chats s) (fromUserId d) (toUserId d) of
            Inl e \<Rightarrow> (Inl e, s)
          | Inr (Some existingChat) \<Rightarrow> (Inr (toChatResponse existingChat), s)
          | Inr None \<Rightarrow>
              (let c = \<lparr>chat_id = newId,
                        participants = [mkId L (fromUserId d), mkId L (toUserId d)],
                        status = Pending,
                        initiatedBy = mkId L (fromUserId d),
                        createdAt = now,
                        acceptedAt = None\<rparr>
               in (case insertChat c (chats s) of
                     Inr cs \<Rightarrow> (Inr (toChatResponse c), s\<lparr>chats := cs\<rparr>)
                   | Inl err \<Rightarrow>
                       (if errorCode err = Some 11000
                        then (case findOneChatAll L (chats s) (fromUserId d) (toUserId d) of
                                Inl e \<Rightarrow> (Inl e, s)
                              | Inr (Some existing) \<Rightarrow> (Inr (toChatResponse existing), s)
                              | Inr None \<Rightarrow> (Inl err, s))
                        else (Inl err, s)))))))))"

definition acceptChat ::
  "idlib \<Rightarrow> int \<Rightarrow> store \<Rightarrow> string \<Rightarrow> string \<Rightarrow> (error + chatResponse) \<times> store" where
  "acceptChat L now s chatId userId =
     (if \<not> isValid L chatId \<or> \<not> isValid L userId
      then (Inl (Error ''Invalid chat ID or user ID''), s)
      else
        (case findChatById L (chats s) chatId of
           Inl e \<Rightarrow> (Inl e, s)
         | Inr None \<Rightarrow> (Inl (Error ''Chat not found''), s)
         | Inr (Some c) \<Rightarrow>
             (if \<not> list_ex (\<lambda>p. toString p = userId) (participants c)
              then (Inl (Error ''User is not a participant in this chat''), s)
              else if toString (initiatedBy c) = userId
              then (Inl (Error ''Cannot accept your own chat request''), s)
              else if status c \<noteq> Pending
              then (Inl (Error (''Chat is already '' @ statusString (status c))), s)
              else
                (let updatedChat = c\<lparr>status := Accepted, acceptedAt := Some now\<rparr>
                 in (Inr (toChatResponse updatedChat),
                     s\<lparr>chats := updateChat updatedChat (chats s)\<rparr>)))))"

definition getChatById :: "idlib \<Rightarrow> store \<Rightarrow> string \<Rightarrow> error + chat option" where
  "getChatById L s chatId =
     (if \<not> isValid L chatId then Inr None
      else findChatById L (chats s) chatId)"

definition validateChatParticipants :: "idlib \<Rightarrow> store \<Rightarrow> string \<Rightarrow> string \<Rightarrow> error + chat" where
  "validateChatParticipants L s chatId userId =
     (if \<not> isValid L chatId \<or> \<not> isValid L userId
      then Inl (Error ''Invalid chat ID or user ID'')
      else
        (case findChatById L (chats s) chatId of
           Inl e \<Rightarrow> Inl e
         | Inr None \<Rightarrow> Inl (Error ''Chat not found'')
         | Inr (Some c) \<Rightarrow>
             (if \<not> list_ex (\<lambda>p. toString p = userId) (participants c)
              then Inl (Error ''User is not a participant in this chat'')
              else Inr c)))"

section \<open>Message ledger\<close>

text \<open>
  The sender reference handed to \<open>toMessageResponse\<close>: the stored id (a message just
  saved), or the result of \<^verbatim>\<open>populate('senderId', 'username')\<close>, which is the user
  document with that id, or null when no such user is stored.
\<close>

datatype senderRef = Unpopulated objectId | Populated "user option"

fun senderIdString :: "senderRef \<Rightarrow> string" where
  "senderIdString (Unpopulated oid) = toString oid"
| "senderIdString (Populated (Some u)) = toString (user_id u)"
| "senderIdString (Populated None) = []"

definition populateSender :: "user list \<Rightarrow> message \<Rightarrow> senderRef" where
  "populateSender us m = Populated (find (\<lambda>u. user_id u = m_senderId m) us)"

definition toMessageResponse :: "senderRef \<Rightarrow> message \<Rightarrow> messageResponse" where
  "toMessageResponse sender m =
     \<lparr>mr_id = toString (m_id m),
      mr_chatId = toString (m_chatId m),
      mr_senderId = senderIdString sender,
      mr_content = m_content m,
      mr_createdAt = m_createdAt m,
      mr_readAt = m_readAt m\<rparr>"

text \<open>
  \<^verbatim>\<open>x || d\<close> on an optional number: the default replaces an absent value and
  zero. (\<open>None\<close> also stands for NaN, which \<^verbatim>\<open>parseInt\<close> returns on a
  non-number and which is falsy as well.)
\<close>

fun orDefault :: "int option \<Rightarrow> int \<Rightarrow> int" where
  "orDefault None d = d"
| "orDefault (Some n) d = (if n = 0 then d else n)"

definition effectivePage :: "paginationQuery \<Rightarrow> int" where
  "effectivePage q = max 1 (orDefault (q_page q) 1)"

definition effectiveLimit :: "paginationQuery \<Rightarrow> int" where
  "effectiveLimit q = min 100 (max 1 (orDefault (q_limit q) 50))"

text \<open>
  \<^verbatim>\<open>Message.find({ chatId }).sort({ createdAt: -1 })\<close>: the messages of the chat,
  newest first; messages of equal creation time keep their insertion order.
\<close>

definition chatMessagesDesc :: "idlib \<Rightarrow> store \<Rightarrow> string \<Rightarrow> message list" where
  "chatMessagesDesc L s chatId =
     sort_key (\<lambda>m. - m_createdAt m) (filter (\<lambda>m. m_chatId m = mkId L chatId) (messages s))"

text \<open>\<^verbatim>\<open>Math.ceil(total / limit)\<close> for a positive limit.\<close>

definition ceilDiv :: "nat \<Rightarrow> int \<Rightarrow> int" where
  "ceilDiv tot limit = (int tot + limit - 1) div limit"

definition getChatMessages ::
  "idlib \<Rightarrow> store \<Rightarrow> string \<Rightarrow> paginationQuery \<Rightarrow> error + paginatedResponse" where
  "getChatMessages L s chatId q =
     (if \<not> isValid L chatId then Inl (Error ''Invalid chat ID'')
      else
        (let page = effectivePage q;
             limit = effectiveLimit q;
             skip = (page - 1) * limit
         in (case findChatById L (chats s) chatId of
               Inl e \<Rightarrow> Inl e
             | Inr None \<Rightarrow> Inl (Error ''Chat not found'')
             | Inr (Some c) \<Rightarrow>
                 (let msgs = take (nat limit) (drop (nat skip) (chatMessagesDesc L s chatId));
                      tot = length (filter (\<lambda>m. m_chatId m = mkId L chatId) (messages s))
                  in Inr \<lparr>p_data = rev (map (\<lambda>m. toMessageResponse (populateSender (users s) m) m) msgs),
                          p_page = page,
                          p_limit = limit,
                          p_total = tot,
                          p_totalPages = ceilDiv tot limit\<rparr>))))"

text \<open>
  The data of page \<open>k\<close> under a given limit (empty when the call fails), and the
  chronological history of a chat: its messages oldest first, which is the store's
  newest-first order reversed.
\<close>

definition pageData :: "idlib \<Rightarrow> store \<Rightarrow> string \<Rightarrow> int option \<Rightarrow> nat \<Rightarrow> messageResponse list" where
  "pageData L s chatId limit k =
     (case getChatMessages L s chatId \<lparr>q_page = Some (int k), q_limit = limit\<rparr> of
        Inl e \<Rightarrow> []
      | Inr r \<Rightarrow> p_data r)"

definition history :: "idlib \<Rightarrow> store \<Rightarrow> string \<Rightarrow> messageResponse list" where
  "history L s chatId =
     map (\<lambda>m. toMessageResponse (populateSender (users s) m) m) (rev (chatMessagesDesc L s chatId))"

text \<open>
  \<open>createMessage\<close> has three parameters: chat, sender and content. \<open>newId\<close> is the
  id the new message receives, \<open>now\<close> the clock.
\<close>

definition createMessage ::
  "idlib \<Rightarrow> objectId \<Rightarrow> int \<Rightarrow> store \<Rightarrow> string \<Rightarrow> string \<Rightarrow> codeUnit list
     \<Rightarrow> (error + messageResponse) \<times> store" where
  "createMessage L newId now s chatId senderId content =
     (if \<not> isValid L chatId \<or> \<not> isValid L senderId
      then (Inl (Error ''Invalid chat ID or sender ID''), s)
      else
        (case validateChatParticipants L s chatId senderId of
           Inl e \<Rightarrow> (Inl e, s)
         | Inr c \<Rightarrow>
             (if status c \<noteq> Accepted
              then (Inl (Error ''Cannot send messages to a chat that is not accepted''), s)
              else
                (let m = \<lparr>m_id = newId,
                          m_chatId = mkId L chatId,
                          m_senderId = mkId L senderId,
                          m_content = trim content,
                          m_replyTo = None,
                          m_createdAt = now,
                          m_readAt = None\<rparr>
                 in (case insertMessage m (messages s) of
                       Inl e \<Rightarrow> (Inl e, s)
                     | Inr (savedMessage, ms) \<Rightarrow>
                         (Inr (toMessageResponse (Unpopulated (m_senderId savedMessage)) savedMessage),
                          s\<lparr>messages := ms\<rparr>))))))"

text \<open>
  The chat service has no method \<open>deleteMessage\<close>. The call
  \<^verbatim>\<open>chatService.deleteMessage(messageId, userId)\<close> of \<open>handleMessageDelete\<close> applies
  the undefined property, which raises a TypeError before anything is read or
  written.
\<close>

definition deleteMessage ::
  "store \<Rightarrow> string \<Rightarrow> string \<Rightarrow> (error + bool \<times> string) \<times> store" where
  "deleteMessage s messageId userId = (Inl TypeError, s)"

section \<open>Socket handlers\<close>

text \<open>
  An emitted event is a pair of the socket id it is addressed to and the event.
  The \<open>error\<close> field of an ERROR payload is the text of an error: \<open>Error m\<close> stands
  for the text \<open>m\<close>, also where the handler writes the text itself.
\<close>

datatype event =
    ERROR error string
  | MESSAGE_RECEIVED messageResponse string
  | MESSAGE_DELETED string string

record messageSendData =
  d_chatId :: string
  d_content :: "codeUnit list"
  d_senderId :: string
  d_replyToId :: "string option"

record handled =
  emitted :: "(string \<times> event) list"
  thrown :: "error option"
  after :: store

text \<open>
  \<^verbatim>\<open>onlineUsers.get(userId)\<close> followed by \<^verbatim>\<open>if (socketId)\<close>: an absent entry and
  an empty socket id both skip the participant.
\<close>

definition notify :: "(string \<rightharpoonup> string) \<Rightarrow> event \<Rightarrow> string list \<Rightarrow> (string \<times> event) list" where
  "notify onlineUsers ev userIds =
     concat (map (\<lambda>userId. case onlineUsers userId of
                              None \<Rightarrow> []
                            | Some socketId \<Rightarrow> if socketId = [] then [] else [(socketId, ev)])
                 userIds)"

text \<open>
  \<open>handleMessageSend\<close>; \<open>sock\<close> is the id of the sender's socket. The handler passes
  \<open>replyToId\<close> as a fourth argument to \<open>createMessage\<close>, which has three parameters:
  the argument is dropped.
\<close>

definition handleMessageSend ::
  "idlib \<Rightarrow> string \<Rightarrow> objectId \<Rightarrow> int \<Rightarrow> (string \<rightharpoonup> string) \<Rightarrow> store \<Rightarrow> messageSendData \<Rightarrow> handled" where
  "handleMessageSend L sock newId now onlineUsers s d =
     (if d_chatId d = [] \<or> d_content d = [] \<or> d_senderId d = []
      then \<lparr>emitted = [(sock, ERROR (Error ''Missing required fields'')
                                 ''chatId, content, and senderId are required'')],
            thrown = None, after = s\<rparr>
      else
        (case validateChatParticipants L s (d_chatId d) (d_senderId d) of
           Inl e \<Rightarrow>
             \<lparr>emitted = [(sock, ERROR e ''An error occurred while processing the message'')],
              thrown = Some e, after = s\<rparr>
         | Inr c \<Rightarrow>
             (if status c \<noteq> Accepted
              then \<lparr>emitted = [(sock, ERROR (Error ''Chat not accepted'')
                                         ''Cannot send messages to a chat that is not accepted'')],
                    thrown = None, after = s\<rparr>
              else
                (case createMessage L newId now s (d_chatId d) (d_senderId d) (d_content d) of
                   (Inl e, s') \<Rightarrow>
                     \<lparr>emitted = [(sock, ERROR e ''An error occurred while processing the message'')],
                      thrown = Some e, after = s'\<rparr>
                 | (Inr msg, s') \<Rightarrow>
                     \<lparr>emitted = notify onlineUsers (MESSAGE_RECEIVED msg (d_chatId d))
                                  (map toString (participants c)),
                      thrown = None, after = s'\<rparr>))))"

definition handleMessageDelete ::
  "idlib \<Rightarrow> string \<Rightarrow> (string \<rightharpoonup> string) \<Rightarrow> store \<Rightarrow> string \<Rightarrow> string \<Rightarrow> handled" where
  "handleMessageDelete L sock onlineUsers s messageId userId =
     (if messageId = [] \<or> userId = []
      then \<lparr>emitted = [(sock, ERROR (Error ''Missing required fields'')
                                 ''messageId and userId are required'')],
            thrown = None, after = s\<rparr>
      else
        (case deleteMessage s messageId userId of
           (Inl e, s') \<Rightarrow>
             \<lparr>emitted = [(sock, ERROR e ''An error occurred while deleting the message'')],
              thrown = None, after = s'\<rparr>
         | (Inr (success, chatId), s') \<Rightarrow>
             (if success
              then (case getChatById L s' chatId of
                      Inl e \<Rightarrow>
                        \<lparr>emitted = [(sock, ERROR e ''An error occurred while deleting the message'')],
                         thrown = None, after = s'\<rparr>
                    | Inr None \<Rightarrow> \<lparr>emitted = [], thrown = None, after = s'\<rparr>
                    | Inr (Some c) \<Rightarrow>
                        \<lparr>emitted = notify onlineUsers (MESSAGE_DELETED messageId chatId)
                                     (map toString (participants c)),
                         thrown = None, after = s'\<rparr>)
              else \<lparr>emitted = [], thrown = None, after = s'\<rparr>)))"

section \<open>A concrete identifier library and sample data\<close>

text \<open>
  An instance of the identifier library, for evaluating the operations: an id is
  well formed when it has 24 hexadecimal digits, and an identifier prints in lower
  case. The sample store has three users and one pending chat, requested by alice
  from bob.
\<close>

definition hexDigit :: "char \<Rightarrow> bool" where
  "hexDigit ch = (ch \<in> set ''0123456789abcdefABCDEF'')"

definition lowerHex :: "char \<Rightarrow> char" where
  "lowerHex ch =
     (if ch = CHR ''A'' then CHR ''a'' else if ch = CHR ''B'' then CHR ''b''
      else if ch = CHR ''C'' then CHR ''c'' else if ch = CHR ''D'' then CHR ''d''
      else if ch = CHR ''E'' then CHR ''e'' else if ch = CHR ''F'' then CHR ''f''
      else ch)"

definition hexIds :: idlib where
  "hexIds = \<lparr>isValid = (\<lambda>s. length s = 24 \<and> list_all hexDigit s),
             mkId = (\<lambda>s. ObjectId (map lowerHex s))\<rparr>"

definition alice :: string where "alice = ''65a1000000000000000000a1''"
definition bob :: string where "bob = ''65a1000000000000000000b2''"
definition carol :: string where "carol = ''65a1000000000000000000c3''"
definition chat1 :: string where "chat1 = ''65c1000000000000000000d4''"
definition msg1 :: string where "msg1 = ''65e1000000000000000000f1''"
definition msg2 :: string where "msg2 = ''65e1000000000000000000f2''"
definition msg3 :: string where "msg3 = ''65e1000000000000000000f3''"

definition sampleUsers :: "user list" where
  "sampleUsers =
     [\<lparr>user_id = ObjectId alice, username = ''alice''\<rparr>,
      \<lparr>user_id = ObjectId bob, username = ''bob''\<rparr>,
      \<lparr>user_id = ObjectId carol, username = ''carol''\<rparr>]"

definition pendingChat :: chat where
  "pendingChat =
     \<lparr>chat_id = ObjectId chat1, participants = [ObjectId alice, ObjectId bob],
      status = Pending, initiatedBy = ObjectId alice, createdAt = 1000, acceptedAt = None\<rparr>"

definition acceptedChat :: chat where
  "acceptedChat = pendingChat\<lparr>status := Accepted, acceptedAt := Some 2000\<rparr>"

text \<open>The code units of an ASCII text.\<close>

definition ascii :: "string \<Rightarrow> codeUnit list" where
  "ascii text = map of_char text"

definition sampleMessage :: "string \<Rightarrow> string \<Rightarrow> string \<Rightarrow> int \<Rightarrow> message" where
  "sampleMessage i sender text t =
     \<lparr>m_id = ObjectId i, m_chatId = ObjectId chat1, m_senderId = ObjectId sender,
      m_content = ascii text, m_replyTo = None, m_createdAt = t, m_readAt = None\<rparr>"

definition emptyStore :: store where
  "emptyStore = \<lparr>users = sampleUsers, chats = [], messages = []\<rparr>"

definition pendingStore :: store where
  "pendingStore = \<lparr>users = sampleUsers, chats = [pendingChat], messages = []\<rparr>"

definition acceptedStore :: store where
  "acceptedStore = \<lparr>users = sampleUsers, chats = [acceptedChat], messages = []\<rparr>"

definition historyStore :: store where
  "historyStore =
     \<lparr>users = sampleUsers, chats = [acceptedChat],
      messages = [sampleMessage msg1 alice ''one'' 3000,
                  sampleMessage msg2 bob ''two'' 3001,
                  sampleMessage msg3 alice ''three'' 3002]\<rparr>"


section \<open>Facts about identifiers and the chat list\<close>

lemma toString_inj: "(toString a = toString b) = (a = b)"
  by (cases a; cases b) simp

lemma list_ex_toString: "list_ex (\<lambda>p. toString p = toString x) ps = (x \<in> set ps)"
  by (induction ps) (auto simp: toString_inj)

lemma list_ex_toString_image: "list_ex (\<lambda>p. toString p = u) ps = (u \<in> toString ` set ps)"
  by (induction ps) auto

lemma findChatById_valid: "findChatById L cs i = Inr r \<Longrightarrow> isValid L i"
  by (auto simp: findChatById_def castId_def split: if_splits)

lemma findChatById_find:
  "findChatById L cs i = Inr r \<Longrightarrow> find (\<lambda>c. chat_id c = mkId L i) cs = r"
  by (auto simp: findChatById_def castId_def split: if_splits)

lemma find_updateChat:
  "find (\<lambda>d. chat_id d = i) cs = Some c \<Longrightarrow> chat_id c' = i \<Longrightarrow>
   find (\<lambda>d. chat_id d = i) (updateChat c' cs) = Some c'"
  by (induction cs) (auto split: if_splits)

lemma length_updateChat: "length (updateChat c' cs) = length cs"
  by (induction cs) auto

lemma find_Some_id: "find (\<lambda>d. chat_id d = i) cs = Some c \<Longrightarrow> chat_id c = i"
  by (induction cs) (auto split: if_splits)

lemma updateChat_other:
  "find (\<lambda>d. chat_id d = chat_id c') cs = Some c \<Longrightarrow> j < length cs \<Longrightarrow> cs ! j \<noteq> c \<Longrightarrow>
   updateChat c' cs ! j = cs ! j"
proof (induction cs arbitrary: j)
  case Nil
  then show ?case by simp
next
  case (Cons d ds)
  show ?case
  proof (cases "chat_id d = chat_id c'")
    case True
    with Cons.prems have "d = c" by simp
    with Cons.prems True show ?thesis by (cases j) auto
  next
    case False
    with Cons show ?thesis by (cases j) auto
  qed
qed

section \<open>Lookups and accepting a chat\<close>

text \<open>
  Claim C10. The two lookup primitives never raise: \<open>getChatById\<close> and \<open>userExists\<close>
  return a value for every id string, and on an id that is not well formed
  \<open>getChatById\<close> returns null and \<open>userExists\<close> returns false (the store's cast error
  is never reached).
\<close>

theorem lookup_malformed_total:
  "(\<exists>r. getChatById L s i = Inr r) \<and> (\<exists>b. userExists L s i = Inr b) \<and>
   (\<not> isValid L i \<longrightarrow> getChatById L s i = Inr None \<and> userExists L s i = Inr False)"
  by (auto simp add: getChatById_def userExists_def findChatById_def findUserById_def castId_def)

text \<open>
  Claim C3, as the code has it. For an existing chat \<open>c\<close> and the user who initiated
  it, \<open>acceptChat\<close> fails whatever the status of \<open>c\<close> is, and the store is unchanged:
  the error is "Cannot accept your own chat request" when the initiator is one of
  the participants (and "User is not a participant in this chat" otherwise); the
  initiator check comes before the status check, so it is never the status error
  "Chat is already ...".
\<close>

theorem acceptChat_initiator_rejected:
  assumes "findChatById L (chats s) chatId = Inr (Some c)"
    and "isValid L (toString (initiatedBy c))"
  shows "acceptChat L now s chatId (toString (initiatedBy c)) =
           (Inl (if initiatedBy c \<in> set (participants c)
                 then Error ''Cannot accept your own chat request''
                 else Error ''User is not a participant in this chat''), s)"
  using assms findChatById_valid[OF assms(1)]
  by (simp add: acceptChat_def list_ex_toString)

lemma acceptChat_cases:
  "acceptChat L now s chatId userId = (r, s') \<Longrightarrow>
   (s' = s \<and> (\<exists>e. r = Inl e)) \<or>
   (\<exists>c. findChatById L (chats s) chatId = Inr (Some c) \<and> status c = Pending \<and>
        r = Inr (toChatResponse (c\<lparr>status := Accepted, acceptedAt := Some now\<rparr>)) \<and>
        s' = s\<lparr>chats := updateChat (c\<lparr>status := Accepted, acceptedAt := Some now\<rparr>) (chats s)\<rparr>)"
  unfolding acceptChat_def Let_def
  apply (cases "\<not> isValid L chatId \<or> \<not> isValid L userId")
   apply (simp only: if_True prod.inject) 
  apply fastforce
  apply (simp only: if_False)
  apply (cases "findChatById L (chats s) chatId")
   apply (simp only: sum.case prod.inject) apply fastforce
  subgoal for found
    apply (cases found)
     apply (simp only: sum.case option.case prod.inject) apply fastforce
    subgoal for c
      apply (simp only: sum.case option.case)
      apply (cases "\<not> list_ex (\<lambda>p. toString p = userId) (participants c)")
       apply (simp only: if_True prod.inject) apply fastforce
      apply (simp only: if_False)
      apply (cases "toString (initiatedBy c) = userId")
       apply (simp only: if_True prod.inject) apply fastforce
      apply (simp only: if_False)
      apply (cases "status c \<noteq> Pending")
       apply (simp only: if_True prod.inject) apply fastforce
      apply (simp only: if_False prod.inject)
      apply fastforce
      done
    done
  done

lemma acceptChat_chats:
  assumes "acceptChat L now s chatId userId = (r, s')"
  shows "users s' = users s \<and> messages s' = messages s \<and> length (chats s') = length (chats s) \<and>
   (\<forall>j < length (chats s). status (chats s ! j) \<noteq> Pending \<longrightarrow> chats s' ! j = chats s ! j)"
  using acceptChat_cases[OF assms]
proof (elim disjE conjE exE)
  assume "s' = s"
  then show ?thesis by simp
next
  fix c
  assume f: "findChatById L (chats s) chatId = Inr (Some c)"
    and p: "status c = Pending"
    and s': "s' = s\<lparr>chats := updateChat (c\<lparr>status := Accepted, acceptedAt := Some now\<rparr>) (chats s)\<rparr>"
  let ?c = "c\<lparr>status := Accepted, acceptedAt := Some now\<rparr>"
  have g: "find (\<lambda>d. chat_id d = chat_id ?c) (chats s) = Some c"
    using findChatById_find[OF f] find_Some_id[OF findChatById_find[OF f]] by simp
  have "chats s' ! j = chats s ! j" if "j < length (chats s)" "status (chats s ! j) \<noteq> Pending" for j
  proof -
    have "chats s ! j \<noteq> c" using that(2) p by auto
    from updateChat_other[OF g that(1) this] show ?thesis using s' by simp
  qed
  then show ?thesis using s' by (simp add: length_updateChat)
qed

text \<open>
  Claim C4, as the code has it. For an existing chat whose status is not pending and
  a caller who is a participant other than the initiator, \<open>acceptChat\<close> fails with
  the error "Chat is already <status>", naming the chat's current status, and leaves
  the store as it was; no call of \<open>acceptChat\<close> on that chat, by any user at any
  time, changes the store.
\<close>

theorem acceptChat_not_pending_rejected:
  assumes "findChatById L (chats s) chatId = Inr (Some c)"
    and "isValid L userId"
    and "userId \<in> toString ` set (participants c)"
    and "userId \<noteq> toString (initiatedBy c)"
    and "status c \<noteq> Pending"
  shows "acceptChat L now s chatId userId =
           (Inl (Error (''Chat is already '' @ statusString (status c))), s)
         \<and> (\<forall>u t. snd (acceptChat L t s chatId u) = s)"
proof (intro conjI allI)
  show "acceptChat L now s chatId userId =
           (Inl (Error (''Chat is already '' @ statusString (status c))), s)"
    using assms findChatById_valid[OF assms(1)]
    by (simp add: acceptChat_def list_ex_toString_image del: append.simps)
  show "snd (acceptChat L t s chatId u) = s" for u t
    using acceptChat_cases[of L t s chatId u "fst (acceptChat L t s chatId u)"
        "snd (acceptChat L t s chatId u)"] assms(1,5)
    by fastforce
qed

text \<open>
  Claim C9. For a pending chat and a caller who is the participant that did not
  initiate it, \<open>acceptChat\<close> succeeds: the stored chat gets status accepted and
  acceptedAt set to the time of the call, its id, participants, initiatedBy and
  createdAt are unchanged, and so are every other chat, the users and the messages.
\<close>

theorem acceptChat_success_frame:
  assumes "findChatById L (chats s) chatId = Inr (Some c)"
    and "isValid L userId"
    and "userId \<in> toString ` set (participants c)"
    and "userId \<noteq> toString (initiatedBy c)"
    and "status c = Pending"
  shows "\<exists>c' s'. acceptChat L now s chatId userId = (Inr (toChatResponse c'), s')
           \<and> findChatById L (chats s') chatId = Inr (Some c')
           \<and> status c' = Accepted \<and> acceptedAt c' = Some now
           \<and> chat_id c' = chat_id c \<and> participants c' = participants c
           \<and> initiatedBy c' = initiatedBy c \<and> createdAt c' = createdAt c
           \<and> users s' = users s \<and> messages s' = messages s
           \<and> length (chats s') = length (chats s)
           \<and> (\<forall>j < length (chats s). chats s ! j \<noteq> c \<longrightarrow> chats s' ! j = chats s ! j)"
proof -
  let ?c = "c\<lparr>status := Accepted, acceptedAt := Some now\<rparr>"
  let ?s = "s\<lparr>chats := updateChat ?c (chats s)\<rparr>"
  have v: "isValid L chatId" using findChatById_valid[OF assms(1)] .
  have f: "find (\<lambda>d. chat_id d = mkId L chatId) (chats s) = Some c"
    using findChatById_find[OF assms(1)] .
  have i: "chat_id c = mkId L chatId" using find_Some_id[OF f] .
  have r: "acceptChat L now s chatId userId = (Inr (toChatResponse ?c), ?s)"
    using assms v by (auto simp add: acceptChat_def list_ex_toString_image Let_def)
  have g: "findChatById L (chats ?s) chatId = Inr (Some ?c)"
    using v find_updateChat[OF f, of ?c] i by (simp add: findChatById_def castId_def)
  have o: "\<forall>j < length (chats s). chats s ! j \<noteq> c \<longrightarrow> chats ?s ! j = chats s ! j"
    using updateChat_other[of ?c "chats s" c] f i by simp
  show ?thesis
    using r g o by (intro exI[of _ ?c] exI[of _ ?s]) (simp add: length_updateChat)
qed

section \<open>Sending a message\<close>

lemma dropWhile_trim_aux:
  "dropWhile P (rev (dropWhile P (rev (dropWhile P s)))) = rev (dropWhile P (rev (dropWhile P s)))"
proof (cases "dropWhile P (rev (dropWhile P s)) = []")
  case True
  show ?thesis unfolding True by simp
next
  case False
  let ?u = "dropWhile P s"
  let ?w = "dropWhile P (rev ?u)"
  have "?u \<noteq> []"
  proof
    assume "?u = []"
    then have "?w = []" by (simp only: rev.simps dropWhile.simps)
    with False show False by simp
  qed
  then have h: "\<not> P (hd ?u)" by (rule hd_dropWhile)
  have "rev ?u = takeWhile P (rev ?u) @ ?w" by simp
  then have "?u = rev ?w @ rev (takeWhile P (rev ?u))"
    by (metis rev_append rev_rev_ident)
  then have "hd ?u = hd (rev ?w)" using False by (metis hd_append2 rev_is_Nil_conv)
  with h have "\<not> P (hd (rev ?w))" by simp
  then show ?thesis using False by (cases "rev ?w") auto
qed

lemma trim_idem: "trim (trim s) = trim s"
  by (simp add: trim_def dropWhile_trim_aux)

lemma validate_found:
  "findChatById L (chats s) chatId = Inr (Some c) \<Longrightarrow> isValid L userId \<Longrightarrow>
   userId \<in> toString ` set (participants c) \<Longrightarrow>
   validateChatParticipants L s chatId userId = Inr c"
  by (frule findChatById_valid) (simp add: validateChatParticipants_def list_ex_toString_image)


lemma createMessage_accepted:
  assumes "findChatById L (chats s) chatId = Inr (Some c)"
    and "isValid L senderId"
    and "senderId \<in> toString ` set (participants c)"
    and "status c = Accepted"
    and "trim content \<noteq> []" and "length (trim content) \<le> 5000"
    and "newId \<notin> m_id ` set (messages s)"
  shows "createMessage L newId now s chatId senderId content =
           (Inr \<lparr>mr_id = toString newId, mr_chatId = toString (mkId L chatId),
                 mr_senderId = toString (mkId L senderId), mr_content = trim content,
                 mr_createdAt = now, mr_readAt = None\<rparr>,
            s\<lparr>messages := messages s @
                 [\<lparr>m_id = newId, m_chatId = mkId L chatId, m_senderId = mkId L senderId,
                   m_content = trim content, m_replyTo = None, m_createdAt = now,
                   m_readAt = None\<rparr>]\<rparr>)"
proof -
  have d: "\<not> list_ex (\<lambda>d. m_id d = newId) (messages s)"
    using assms(7) by (auto simp: list_ex_iff)
  show ?thesis
    using assms(2,4,5,6) d findChatById_valid[OF assms(1)] validate_found[OF assms(1-3)]
    by (simp add: createMessage_def insertMessage_def trim_idem toMessageResponse_def Let_def)
qed



subsection \<open>The operations evaluated on the sample store\<close>

lemma hex_valid:
  "isValid hexIds alice" "isValid hexIds bob" "isValid hexIds carol" "isValid hexIds chat1"
  by (simp_all add: hexIds_def hexDigit_def alice_def bob_def carol_def chat1_def)

lemma hex_mkId:
  "mkId hexIds alice = ObjectId alice" "mkId hexIds bob = ObjectId bob"
  "mkId hexIds carol = ObjectId carol" "mkId hexIds chat1 = ObjectId chat1"
  by (simp_all add: hexIds_def lowerHex_def alice_def bob_def carol_def chat1_def)

lemma ids_distinct:
  "alice \<noteq> bob" "bob \<noteq> alice" "alice \<noteq> carol" "carol \<noteq> alice" "bob \<noteq> carol" "carol \<noteq> bob"
  by (simp_all add: alice_def bob_def carol_def)

lemma find_sample_chat:
  "findChatById hexIds [c] chat1 = Inr (if chat_id c = ObjectId chat1 then Some c else None)"
  by (simp add: findChatById_def castId_def hex_valid hex_mkId)

theorem lookup_malformed_total_witness:
  "\<not> isValid hexIds ''not-an-id''
   \<and> getChatById hexIds pendingStore ''not-an-id'' = Inr None
   \<and> userExists hexIds pendingStore ''not-an-id'' = Inr False"
  using lookup_malformed_total[of hexIds pendingStore "''not-an-id''"]
  by (simp add: hexIds_def)

theorem acceptChat_initiator_rejected_witness:
  "findChatById hexIds (chats acceptedStore) chat1 = Inr (Some acceptedChat)
   \<and> isValid hexIds (toString (initiatedBy acceptedChat))
   \<and> acceptChat hexIds 5000 acceptedStore chat1 alice =
        (Inl (Error ''Cannot accept your own chat request''), acceptedStore)"
proof -
  have f: "findChatById hexIds (chats acceptedStore) chat1 = Inr (Some acceptedChat)"
    by (simp add: acceptedStore_def find_sample_chat acceptedChat_def pendingChat_def)
  have v: "isValid hexIds (toString (initiatedBy acceptedChat))"
    by (simp add: acceptedChat_def pendingChat_def hex_valid)
  from acceptChat_initiator_rejected[OF f v, of 5000] f v show ?thesis
    by (simp add: acceptedChat_def pendingChat_def)
qed

theorem acceptChat_not_pending_rejected_witness:
  "findChatById hexIds (chats acceptedStore) chat1 = Inr (Some acceptedChat)
   \<and> isValid hexIds bob
   \<and> bob \<in> toString ` set (participants acceptedChat)
   \<and> bob \<noteq> toString (initiatedBy acceptedChat)
   \<and> status acceptedChat \<noteq> Pending
   \<and> acceptChat hexIds 5000 acceptedStore chat1 bob =
        (Inl (Error ''Chat is already accepted''), acceptedStore)"
proof -
  have f: "findChatById hexIds (chats acceptedStore) chat1 = Inr (Some acceptedChat)"
    by (simp add: acceptedStore_def find_sample_chat acceptedChat_def pendingChat_def)
  have p: "bob \<in> toString ` set (participants acceptedChat)"
    by (simp add: acceptedChat_def pendingChat_def)
  have i: "bob \<noteq> toString (initiatedBy acceptedChat)"
    by (simp add: acceptedChat_def pendingChat_def ids_distinct)
  have n: "status acceptedChat \<noteq> Pending" by (simp add: acceptedChat_def)
  from acceptChat_not_pending_rejected[OF f hex_valid(2) p i n, of 5000] f p i n
  show ?thesis by (simp add: hex_valid acceptedChat_def)
qed

theorem acceptChat_success_frame_witness:
  "findChatById hexIds (chats pendingStore) chat1 = Inr (Some pendingChat)
   \<and> isValid hexIds bob
   \<and> bob \<in> toString ` set (participants pendingChat)
   \<and> bob \<noteq> toString (initiatedBy pendingChat)
   \<and> status pendingChat = Pending
   \<and> (\<exists>c' s'. acceptChat hexIds 2000 pendingStore chat1 bob = (Inr (toChatResponse c'), s')
         \<and> findChatById hexIds (chats s') chat1 = Inr (Some c')
         \<and> status c' = Accepted \<and> acceptedAt c' = Some 2000
         \<and> participants c' = participants pendingChat
         \<and> initiatedBy c' = initiatedBy pendingChat
         \<and> createdAt c' = createdAt pendingChat)"
proof -
  have f: "findChatById hexIds (chats pendingStore) chat1 = Inr (Some pendingChat)"
    by (simp add: pendingStore_def find_sample_chat pendingChat_def)
  have p: "bob \<in> toString ` set (participants pendingChat)"
    by (simp add: pendingChat_def)
  have i: "bob \<noteq> toString (initiatedBy pendingChat)"
    by (simp add: pendingChat_def ids_distinct)
  have n: "status pendingChat = Pending" by (simp add: pendingChat_def)
  from acceptChat_success_frame[OF f hex_valid(2) p i n, of 2000] f p i n
  show ?thesis using hex_valid(2) by fastforce
qed


text \<open>
  Claim C3 as stated fails on the class of the error. The error thrown for alice,
  the initiator of the accepted sample chat, carries no status code, and the server's
  error handler answers such an error with 500; Forbidden is the class of 403.
\<close>

theorem acceptChat_initiator_status_counterexample:
  "acceptChat hexIds 5000 acceptedStore chat1 alice =
     (Inl (Error ''Cannot accept your own chat request''), acceptedStore)
   \<and> statusCode (Error ''Cannot accept your own chat request'') = None
   \<and> errorStatus (Error ''Cannot accept your own chat request'') = 500"
proof -
  have f: "findChatById hexIds (chats acceptedStore) chat1 = Inr (Some acceptedChat)"
    by (simp add: acceptedStore_def find_sample_chat acceptedChat_def pendingChat_def)
  then show ?thesis
    by (simp add: acceptChat_def hex_valid acceptedChat_def pendingChat_def errorStatus_def)
qed

text \<open>
  Claim C4 as stated fails on the class of the error. The error thrown for bob on
  the accepted sample chat carries no status code, and the server's error handler
  answers such an error with 500; Conflict is the class of 409.
\<close>

theorem acceptChat_not_pending_status_counterexample:
  "acceptChat hexIds 5000 acceptedStore chat1 bob =
     (Inl (Error ''Chat is already accepted''), acceptedStore)
   \<and> statusCode (Error ''Chat is already accepted'') = None
   \<and> errorStatus (Error ''Chat is already accepted'') = 500"
proof -
  have f: "findChatById hexIds (chats acceptedStore) chat1 = Inr (Some acceptedChat)"
    by (simp add: acceptedStore_def find_sample_chat acceptedChat_def pendingChat_def)
  then show ?thesis
    by (simp add: acceptChat_def hex_valid acceptedChat_def pendingChat_def ids_distinct
          errorStatus_def)
qed


section \<open>Requesting a chat\<close>

lemma findOneChatAll_valid:
  "isValid L a \<Longrightarrow> isValid L b \<Longrightarrow>
   findOneChatAll L cs a b =
     Inr (find (\<lambda>c. mkId L a \<in> set (participants c) \<and> mkId L b \<in> set (participants c)) cs)"
  by (simp add: findOneChatAll_def castId_def)

lemma find_pair_commute:
  "find (\<lambda>c. y \<in> set (participants c) \<and> x \<in> set (participants c)) cs =
   find (\<lambda>c. x \<in> set (participants c) \<and> y \<in> set (participants c)) cs"
  by (rule arg_cong[where f="\<lambda>P. find P cs"]) (auto simp: fun_eq_iff)

lemma find_snoc:
  "find P (xs @ [x]) = (case find P xs of None \<Rightarrow> (if P x then Some x else None) | Some y \<Rightarrow> Some y)"
  by (induction xs) auto

lemma find_mem: "find P xs = Some x \<Longrightarrow> x \<in> set xs \<and> P x"
  by (induction xs) (auto split: if_splits)

lemma find_None_mem: "find P xs = None \<Longrightarrow> x \<in> set xs \<Longrightarrow> \<not> P x"
  by (induction xs) (auto split: if_splits)

lemma userExists_users: "users s' = users s \<Longrightarrow> userExists L s' u = userExists L s u"
  by (simp add: userExists_def)

lemma createChatRequest_eval:
  assumes "isValid L a" "isValid L b" "mkId L a \<noteq> mkId L b"
    and "userExists L s a = Inr True" "userExists L s b = Inr True"
  shows "createChatRequest L n t s \<lparr>fromUserId = a, toUserId = b\<rparr> =
     (case find (\<lambda>c. mkId L a \<in> set (participants c) \<and> mkId L b \<in> set (participants c)) (chats s) of
        Some c \<Rightarrow> (Inr (toChatResponse c), s)
      | None \<Rightarrow>
          if list_ex (\<lambda>d. chat_id d = n) (chats s) then (Inl DuplicateKey, s)
          else (Inr (toChatResponse
                   \<lparr>chat_id = n, participants = [mkId L a, mkId L b], status = Pending,
                    initiatedBy = mkId L a, createdAt = t, acceptedAt = None\<rparr>),
                s\<lparr>chats := chats s @
                   [\<lparr>chat_id = n, participants = [mkId L a, mkId L b], status = Pending,
                    initiatedBy = mkId L a, createdAt = t, acceptedAt = None\<rparr>]\<rparr>))"
proof -
  have ne: "a \<noteq> b" using assms(3) by auto
  have pv: "participantsValid [mkId L a, mkId L b]"
    using assms(3) by (simp add: toString_inj)
  show ?thesis
    using assms(1,2,4,5) ne pv
    by (simp add: createChatRequest_def findOneChatAll_valid insertChat_def Let_def
          split: option.splits)
qed

text \<open>
  Claim C1. For two well-formed ids of different, existing users: if the store holds
  a chat whose participants include both (in any status), \<open>createChatRequest\<close>
  returns a stored chat of that pair and leaves the store unchanged, and that chat is
  the given one when the store holds one chat per pair; after any successful
  request, a second request for the pair, in either argument order and with any
  fresh id and clock, returns the same response (so the same chat id) and changes
  nothing; and a request whose new id is not yet used by a stored chat succeeds.
\<close>

theorem createChatRequest_idempotent:
  assumes "isValid L u1" "isValid L u2" "mkId L u1 \<noteq> mkId L u2"
    and "userExists L s u1 = Inr True" "userExists L s u2 = Inr True"
  shows "(\<forall>c\<in>set (chats s).
            mkId L u1 \<in> set (participants c) \<and> mkId L u2 \<in> set (participants c) \<longrightarrow>
            (\<exists>c'\<in>set (chats s).
               (mkId L u1 \<in> set (participants c') \<and> mkId L u2 \<in> set (participants c'))
               \<and> createChatRequest L n t s \<lparr>fromUserId = u1, toUserId = u2\<rparr> =
                   (Inr (toChatResponse c'), s)
               \<and> ((\<forall>d\<in>set (chats s).
                      mkId L u1 \<in> set (participants d) \<and> mkId L u2 \<in> set (participants d)
                      \<longrightarrow> d = c) \<longrightarrow> c' = c)))
       \<and> (\<forall>r s'. createChatRequest L n t s \<lparr>fromUserId = u1, toUserId = u2\<rparr> = (Inr r, s') \<longrightarrow>
            (\<forall>n' t'.
               createChatRequest L n' t' s' \<lparr>fromUserId = u1, toUserId = u2\<rparr> = (Inr r, s')
               \<and> createChatRequest L n' t' s' \<lparr>fromUserId = u2, toUserId = u1\<rparr> = (Inr r, s')))
       \<and> (n \<notin> chat_id ` set (chats s) \<longrightarrow>
            (\<exists>r s'. createChatRequest L n t s \<lparr>fromUserId = u1, toUserId = u2\<rparr> = (Inr r, s')))"
proof -
  let ?P = "\<lambda>c. mkId L u1 \<in> set (participants c) \<and> mkId L u2 \<in> set (participants c)"
  let ?new = "\<lparr>chat_id = n, participants = [mkId L u1, mkId L u2], status = Pending,
               initiatedBy = mkId L u1, createdAt = t, acceptedAt = None\<rparr>"
  note ev = createChatRequest_eval[OF assms]
  have part1: "\<exists>c'\<in>set (chats s). ?P c'
               \<and> createChatRequest L n t s \<lparr>fromUserId = u1, toUserId = u2\<rparr> =
                   (Inr (toChatResponse c'), s)
               \<and> ((\<forall>d\<in>set (chats s). ?P d \<longrightarrow> d = c) \<longrightarrow> c' = c)"
    if "c \<in> set (chats s)" "?P c" for c
  proof -
    have "find ?P (chats s) \<noteq> None"
    proof
      assume "find ?P (chats s) = None"
      from find_None_mem[OF this that(1)] that(2) show False by simp
    qed
    then obtain c' where f: "find ?P (chats s) = Some c'" by auto
    from find_mem[OF f] have m: "c' \<in> set (chats s)" "?P c'" by simp_all
    have "createChatRequest L n t s \<lparr>fromUserId = u1, toUserId = u2\<rparr> = (Inr (toChatResponse c'), s)"
      using ev[of n t] f by simp
    with m show ?thesis by (intro bexI[of _ c']) auto
  qed
  have part2: "createChatRequest L n' t' s' \<lparr>fromUserId = u1, toUserId = u2\<rparr> = (Inr r, s')
               \<and> createChatRequest L n' t' s' \<lparr>fromUserId = u2, toUserId = u1\<rparr> = (Inr r, s')"
    if c: "createChatRequest L n t s \<lparr>fromUserId = u1, toUserId = u2\<rparr> = (Inr r, s')" for r s' n' t'
  proof -
    have "\<exists>c'. find ?P (chats s') = Some c' \<and> r = toChatResponse c' \<and> users s' = users s"
    proof (cases "find ?P (chats s)")
      case (Some c')
      with c ev[of n t] show ?thesis by simp
    next
      case None
      with c ev[of n t] have "\<not> list_ex (\<lambda>d. chat_id d = n) (chats s)"
        by (auto split: if_splits)
      with None c ev[of n t] have "r = toChatResponse ?new" "s' = s\<lparr>chats := chats s @ [?new]\<rparr>"
        by simp_all
      with None show ?thesis by (simp add: find_snoc)
    qed
    then obtain c' where f: "find ?P (chats s') = Some c'" and r: "r = toChatResponse c'"
      and u: "users s' = users s" by auto
    have e1: "userExists L s' u1 = Inr True" "userExists L s' u2 = Inr True"
      using assms(4,5) userExists_users[OF u] by simp_all
    have "createChatRequest L n' t' s' \<lparr>fromUserId = u1, toUserId = u2\<rparr> = (Inr r, s')"
      using createChatRequest_eval[OF assms(1-3) e1, of n' t'] f r by simp
    moreover have "createChatRequest L n' t' s' \<lparr>fromUserId = u2, toUserId = u1\<rparr> = (Inr r, s')"
      using createChatRequest_eval[OF assms(2,1) assms(3)[symmetric] e1(2,1), of n' t'] f r
      by (simp add: find_pair_commute[of "mkId L u2" "mkId L u1"])
    ultimately show ?thesis by simp
  qed
  have part3: "\<exists>r s'. createChatRequest L n t s \<lparr>fromUserId = u1, toUserId = u2\<rparr> = (Inr r, s')"
    if "n \<notin> chat_id ` set (chats s)"
  proof -
    have "\<not> list_ex (\<lambda>d. chat_id d = n) (chats s)" using that by (auto simp: list_ex_iff)
    then show ?thesis using ev[of n t] by (cases "find ?P (chats s)") simp_all
  qed
  show ?thesis
  proof (intro conjI ballI allI impI)
    fix c assume "c \<in> set (chats s)" "?P c"
    then show "\<exists>c'\<in>set (chats s). ?P c'
               \<and> createChatRequest L n t s \<lparr>fromUserId = u1, toUserId = u2\<rparr> =
                   (Inr (toChatResponse c'), s)
               \<and> ((\<forall>d\<in>set (chats s). ?P d \<longrightarrow> d = c) \<longrightarrow> c' = c)"
      by (rule part1)
  next
    fix r s' n' t'
    assume c: "createChatRequest L n t s \<lparr>fromUserId = u1, toUserId = u2\<rparr> = (Inr r, s')"
    show "createChatRequest L n' t' s' \<lparr>fromUserId = u1, toUserId = u2\<rparr> = (Inr r, s')"
      using part2[OF c] by simp
    show "createChatRequest L n' t' s' \<lparr>fromUserId = u2, toUserId = u1\<rparr> = (Inr r, s')"
      using part2[OF c] by simp
  next
    assume "n \<notin> chat_id ` set (chats s)"
    then show "\<exists>r s'. createChatRequest L n t s \<lparr>fromUserId = u1, toUserId = u2\<rparr> = (Inr r, s')"
      by (rule part3)
  qed
qed

lemma user_alice_bob:
  "userExists hexIds emptyStore alice = Inr True" "userExists hexIds emptyStore bob = Inr True"
  by (simp_all add: userExists_def findUserById_def castId_def hex_valid hex_mkId emptyStore_def
        sampleUsers_def)

lemma alice_bob_oid: "mkId hexIds alice \<noteq> mkId hexIds bob"
  by (simp add: hex_mkId ids_distinct)

theorem createChatRequest_idempotent_witness:
  "isValid hexIds alice \<and> isValid hexIds bob \<and> mkId hexIds alice \<noteq> mkId hexIds bob
   \<and> userExists hexIds emptyStore alice = Inr True
   \<and> userExists hexIds emptyStore bob = Inr True
   \<and> createChatRequest hexIds (ObjectId chat1) 1000 emptyStore
         \<lparr>fromUserId = alice, toUserId = bob\<rparr> = (Inr (toChatResponse pendingChat), pendingStore)
   \<and> createChatRequest hexIds (ObjectId msg1) 1500 pendingStore
         \<lparr>fromUserId = alice, toUserId = bob\<rparr> = (Inr (toChatResponse pendingChat), pendingStore)
   \<and> createChatRequest hexIds (ObjectId msg1) 1500 pendingStore
         \<lparr>fromUserId = bob, toUserId = alice\<rparr> = (Inr (toChatResponse pendingChat), pendingStore)"
proof -
  have c: "createChatRequest hexIds (ObjectId chat1) 1000 emptyStore
         \<lparr>fromUserId = alice, toUserId = bob\<rparr> = (Inr (toChatResponse pendingChat), pendingStore)"
    using createChatRequest_eval[OF hex_valid(1,2) alice_bob_oid user_alice_bob,
        of "ObjectId chat1" 1000]
    by (simp add: emptyStore_def pendingStore_def pendingChat_def hex_mkId)
  note again =
    createChatRequest_idempotent[OF hex_valid(1,2) alice_bob_oid user_alice_bob,
      of "ObjectId chat1" 1000, THEN conjunct2, THEN conjunct1, rule_format, OF c,
      of "ObjectId msg1" 1500]
  show ?thesis
    by (intro conjI hex_valid alice_bob_oid user_alice_bob c again[THEN conjunct1]
          again[THEN conjunct2])
qed

section \<open>Delivery of a new message\<close>

lemma createMessage_cases:
  "createMessage L newId now s chatId senderId content = (r, s') \<Longrightarrow>
   (s' = s \<and> (\<exists>e. r = Inl e)) \<or>
   (\<exists>saved. (\<exists>resp. r = Inr resp) \<and> s' = s\<lparr>messages := messages s @ [saved]\<rparr>)"
  unfolding createMessage_def Let_def
  apply (cases "\<not> isValid L chatId \<or> \<not> isValid L senderId")
   apply (simp only: if_True prod.inject)
   apply fastforce
  apply (simp only: if_False)
  apply (cases "validateChatParticipants L s chatId senderId")
   apply (simp only: sum.case prod.inject)
   apply fastforce
  subgoal for c
    apply (simp only: sum.case)
    apply (cases "status c \<noteq> Accepted")
     apply (simp only: if_True prod.inject)
     apply fastforce
    apply (simp only: if_False)
    apply (simp add: insertMessage_def Let_def split: if_splits)
    apply fastforce+
    done
  done

lemma notify_two:
  "notify onlineUsers ev [a, b] =
     (case onlineUsers a of None \<Rightarrow> [] | Some x \<Rightarrow> if x = [] then [] else [(x, ev)]) @
     (case onlineUsers b of None \<Rightarrow> [] | Some x \<Rightarrow> if x = [] then [] else [(x, ev)])"
  by (simp add: notify_def)

text \<open>
  Claim C6. For a successful message send in a chat of two participants, one with
  an entry (a non-empty socket id) in the online-users map and one without:
  \<open>handleMessageSend\<close> emits exactly one event, MESSAGE_RECEIVED with the created
  message, addressed to the socket id registered for the online participant; nothing
  is thrown, nothing is emitted for the offline participant, and the store is the one
  \<open>createMessage\<close> returned: users and chats as before, one message appended.
\<close>

theorem handleMessageSend_delivery:
  assumes "d_chatId d \<noteq> []" "d_content d \<noteq> []" "d_senderId d \<noteq> []"
    and "validateChatParticipants L s (d_chatId d) (d_senderId d) = Inr c"
    and "status c = Accepted"
    and "createMessage L newId now s (d_chatId d) (d_senderId d) (d_content d) = (Inr msg, s')"
    and "participants c = [p1, p2]"
    and "(on, off) = (p1, p2) \<or> (on, off) = (p2, p1)"
    and "onlineUsers (toString on) = Some endpoint" "endpoint \<noteq> []"
    and "onlineUsers (toString off) = None"
  shows "handleMessageSend L sock newId now onlineUsers s d =
           \<lparr>emitted = [(endpoint, MESSAGE_RECEIVED msg (d_chatId d))], thrown = None, after = s'\<rparr>
         \<and> users s' = users s \<and> chats s' = chats s
         \<and> (\<exists>saved. messages s' = messages s @ [saved])"
proof -
  have n: "notify onlineUsers (MESSAGE_RECEIVED msg (d_chatId d)) (map toString (participants c))
           = [(endpoint, MESSAGE_RECEIVED msg (d_chatId d))]"
    using assms(7-11) by (auto simp: notify_two)
  have h: "handleMessageSend L sock newId now onlineUsers s d =
           \<lparr>emitted = notify onlineUsers (MESSAGE_RECEIVED msg (d_chatId d))
                         (map toString (participants c)),
            thrown = None, after = s'\<rparr>"
    using assms(1-6) by (simp add: handleMessageSend_def)
  have f: "users s' = users s \<and> chats s' = chats s \<and> (\<exists>saved. messages s' = messages s @ [saved])"
    using createMessage_cases[OF assms(6)] by auto
  show ?thesis using h n f by simp
qed

lemma validate_sample:
  "validateChatParticipants hexIds acceptedStore chat1 alice = Inr acceptedChat"
  by (simp add: validateChatParticipants_def hex_valid acceptedStore_def find_sample_chat
        acceptedChat_def pendingChat_def)

lemma hi_nonempty: "ascii ''hi'' \<noteq> []"
  by (simp add: ascii_def)

lemma trim_hi: "trim (ascii ''hi'') = (ascii ''hi'')"
  by (simp add: trim_def isSpace_def ascii_def)

lemma createMessage_sample:
  "createMessage hexIds (ObjectId msg1) 3000 acceptedStore chat1 alice (ascii ''hi'') =
     (Inr \<lparr>mr_id = msg1, mr_chatId = chat1, mr_senderId = alice, mr_content = (ascii ''hi''),
           mr_createdAt = 3000, mr_readAt = None\<rparr>,
      acceptedStore\<lparr>messages := [sampleMessage msg1 alice ''hi'' 3000]\<rparr>)"
proof -
  have f: "findChatById hexIds (chats acceptedStore) chat1 = Inr (Some acceptedChat)"
    by (simp add: acceptedStore_def find_sample_chat acceptedChat_def pendingChat_def)
  have p: "alice \<in> toString ` set (participants acceptedChat)"
    by (simp add: acceptedChat_def pendingChat_def)
  have st: "status acceptedChat = Accepted" by (simp add: acceptedChat_def)
  have t: "trim (ascii ''hi'') \<noteq> []" "length (trim (ascii ''hi'')) \<le> 5000"
    by (simp_all add: trim_hi) (simp_all add: ascii_def)
  have m: "ObjectId msg1 \<notin> m_id ` set (messages acceptedStore)"
    by (simp add: acceptedStore_def)
  from createMessage_accepted[OF f hex_valid(1) p st t m, of 3000] show ?thesis
    by (simp add: hex_mkId trim_hi sampleMessage_def acceptedStore_def)
qed

theorem handleMessageSend_delivery_witness:
  "validateChatParticipants hexIds acceptedStore chat1 alice = Inr acceptedChat
   \<and> status acceptedChat = Accepted
   \<and> participants acceptedChat = [ObjectId alice, ObjectId bob]
   \<and> [bob \<mapsto> ''socket-b''] (toString (ObjectId bob)) = Some ''socket-b''
   \<and> [bob \<mapsto> ''socket-b''] (toString (ObjectId alice)) = None
   \<and> handleMessageSend hexIds ''socket-a'' (ObjectId msg1) 3000 [bob \<mapsto> ''socket-b''] acceptedStore
        \<lparr>d_chatId = chat1, d_content = (ascii ''hi''), d_senderId = alice, d_replyToId = None\<rparr> =
      \<lparr>emitted = [(''socket-b'',
                   MESSAGE_RECEIVED
                     \<lparr>mr_id = msg1, mr_chatId = chat1, mr_senderId = alice, mr_content = (ascii ''hi''),
                      mr_createdAt = 3000, mr_readAt = None\<rparr> chat1)],
       thrown = None,
       after = acceptedStore\<lparr>messages := [sampleMessage msg1 alice ''hi'' 3000]\<rparr>\<rparr>"
proof -
  let ?d = "\<lparr>d_chatId = chat1, d_content = (ascii ''hi''), d_senderId = alice, d_replyToId = None\<rparr>"
  have a: "d_chatId ?d \<noteq> []" "d_content ?d \<noteq> []" "d_senderId ?d \<noteq> []"
    by (simp_all add: chat1_def alice_def hi_nonempty)
  have v: "validateChatParticipants hexIds acceptedStore (d_chatId ?d) (d_senderId ?d) = Inr acceptedChat"
    by (simp add: validate_sample)
  have st: "status acceptedChat = Accepted" by (simp add: acceptedChat_def)
  have c: "createMessage hexIds (ObjectId msg1) 3000 acceptedStore (d_chatId ?d) (d_senderId ?d)
             (d_content ?d) =
           (Inr \<lparr>mr_id = msg1, mr_chatId = chat1, mr_senderId = alice, mr_content = (ascii ''hi''),
                 mr_createdAt = 3000, mr_readAt = None\<rparr>,
            acceptedStore\<lparr>messages := [sampleMessage msg1 alice ''hi'' 3000]\<rparr>)"
    by (simp add: createMessage_sample)
  have p: "participants acceptedChat = [ObjectId alice, ObjectId bob]"
    by (simp add: acceptedChat_def pendingChat_def)
  have o: "(ObjectId bob, ObjectId alice) = (ObjectId alice, ObjectId bob)
           \<or> (ObjectId bob, ObjectId alice) = (ObjectId bob, ObjectId alice)" by simp
  have on: "[bob \<mapsto> ''socket-b''] (toString (ObjectId bob)) = Some ''socket-b''" by simp
  have off: "[bob \<mapsto> ''socket-b''] (toString (ObjectId alice)) = None"
    by (simp add: ids_distinct)
  have e: "''socket-b'' \<noteq> []" by simp
  note r = handleMessageSend_delivery[OF a v st c p o on e off, of "''socket-a''", THEN conjunct1]
  show ?thesis
    using r by (intro conjI validate_sample st p on off) (simp only: messageSendData.select_convs)
qed

text \<open>
  Claim C8, evaluated on the code. A send that carries a \<open>replyToId\<close> naming no
  stored message (the accepted chat has no message at all) does not fail: the
  message is created and delivered, and the stored message has no reply-to
  reference.
\<close>

theorem handleMessageSend_drops_replyTo:
  "handleMessageSend hexIds ''socket-a'' (ObjectId msg1) 3000 [bob \<mapsto> ''socket-b''] acceptedStore
        \<lparr>d_chatId = chat1, d_content = (ascii ''hi''), d_senderId = alice, d_replyToId = Some msg3\<rparr> =
      \<lparr>emitted = [(''socket-b'',
                   MESSAGE_RECEIVED
                     \<lparr>mr_id = msg1, mr_chatId = chat1, mr_senderId = alice, mr_content = (ascii ''hi''),
                      mr_createdAt = 3000, mr_readAt = None\<rparr> chat1)],
       thrown = None,
       after = acceptedStore
         \<lparr>messages :=
            [\<lparr>m_id = ObjectId msg1, m_chatId = ObjectId chat1, m_senderId = ObjectId alice,
              m_content = (ascii ''hi''), m_replyTo = None, m_createdAt = 3000,
              m_readAt = None\<rparr>]\<rparr>\<rparr>
   \<and> find (\<lambda>m. toString (m_id m) = msg3) (messages acceptedStore) = None"
proof -
  have n: "chat1 \<noteq> []" "alice \<noteq> []" "ascii ''hi'' \<noteq> []"
    by (simp_all add: chat1_def alice_def hi_nonempty)
  have st: "status acceptedChat = Accepted" by (simp add: acceptedChat_def)
  have p: "participants acceptedChat = [ObjectId alice, ObjectId bob]"
    by (simp add: acceptedChat_def pendingChat_def)
  have "find (\<lambda>m. toString (m_id m) = msg3) (messages acceptedStore) = None"
    by (simp add: acceptedStore_def)
  then show ?thesis
    using n by (simp add: handleMessageSend_def validate_sample st createMessage_sample p
        notify_two ids_distinct sampleMessage_def)
qed

section \<open>Pagination of the message history\<close>

lemma ceilDiv_ceiling:
  assumes "0 < l"
  shows "ceilDiv t l = \<lceil>real t / real_of_int l\<rceil>"
proof -
  define q where "q = (int t + l - 1) div l"
  define r where "r = (int t + l - 1) mod l"
  have e: "int t + l - 1 = q * l + r" by (simp add: q_def r_def)
  have r: "0 \<le> r" "r < l" using assms by (simp_all add: r_def)
  have lo: "(q - 1) * l < int t" and hi: "int t \<le> q * l"
    using e r by (simp_all add: algebra_simps)
  have "real_of_int ((q - 1) * l) < real_of_int (int t)" using lo by (simp only: of_int_less_iff)
  then have a: "real_of_int q - 1 < real t / real_of_int l"
    using assms by (simp add: pos_less_divide_eq)
  have "real_of_int (int t) \<le> real_of_int (q * l)" using hi by (simp only: of_int_le_iff)
  then have b: "real t / real_of_int l \<le> real_of_int q"
    using assms by (simp add: pos_divide_le_eq)
  have "\<lceil>real t / real_of_int l\<rceil> = q" using a b by (rule ceiling_unique)
  then show ?thesis by (simp add: ceilDiv_def q_def)
qed

lemma ceilDiv_covers:
  assumes "0 < l"
  shows "t \<le> nat (ceilDiv t l) * nat l"
proof -
  define q where "q = (int t + l - 1) div l"
  define r where "r = (int t + l - 1) mod l"
  have e: "int t + l - 1 = q * l + r" by (simp add: q_def r_def)
  have r: "0 \<le> r" "r < l" using assms by (simp_all add: r_def)
  have hi: "int t \<le> q * l" using e r by (simp_all add: algebra_simps)
  have q0: "0 \<le> q" using assms by (simp add: q_def pos_imp_zdiv_nonneg_iff)
  have "int (nat q * nat l) = q * l" using q0 assms by simp
  with hi have "int t \<le> int (nat q * nat l)" by simp
  then show ?thesis by (simp only: of_nat_le_iff ceilDiv_def q_def)
qed

lemma sorted_rev_map_neg:
  fixes f :: "'a \<Rightarrow> int"
  shows "sorted (map (\<lambda>x. - f x) xs) \<Longrightarrow> sorted (rev (map f xs))"
  by (simp add: sorted_wrt_rev sorted_wrt_map sorted_map)

lemma concat_chunks:
  "concat (map (\<lambda>k. take l (drop ((k - 1) * l) xs)) [1..<Suc n]) = take (n * l) xs"
proof (induction n)
  case 0
  then show ?case by simp
next
  case (Suc n)
  have "take (n * l) xs @ take l (drop (n * l) xs) = take (n * l + l) xs"
    by (simp add: take_add)
  with Suc show ?case by (simp add: add.commute)
qed

lemma effectiveLimit_range: "1 \<le> effectiveLimit q \<and> effectiveLimit q \<le> 100"
  by (simp add: effectiveLimit_def)

lemma effectiveLimit_value:
  "effectiveLimit q =
     (case q_limit q of None \<Rightarrow> 50 | Some l \<Rightarrow> if l = 0 then 50 else min 100 (max 1 l))"
  by (cases "q_limit q") (simp_all add: effectiveLimit_def)

lemma effectivePage_value:
  "effectivePage q = max 1 (case q_page q of None \<Rightarrow> 1 | Some p \<Rightarrow> p)"
  by (cases "q_page q") (auto simp add: effectivePage_def)

lemma effectivePage_nat: "0 < k \<Longrightarrow> effectivePage \<lparr>q_page = Some (int k), q_limit = l\<rparr> = int k"
  by (simp add: effectivePage_def)

lemma length_chatMessagesDesc:
  "length (chatMessagesDesc L s chatId) =
   length (filter (\<lambda>m. m_chatId m = mkId L chatId) (messages s))"
  by (simp add: chatMessagesDesc_def)

lemma sorted_chatMessagesDesc:
  "sorted (map (\<lambda>m. - m_createdAt m) (chatMessagesDesc L s chatId))"
  by (simp add: chatMessagesDesc_def)

lemma mr_createdAt_resp: "mr_createdAt (toMessageResponse r m) = m_createdAt m"
  by (simp add: toMessageResponse_def)

lemma sorted_slice_desc:
  fixes f :: "'a \<Rightarrow> int"
  assumes "sorted (map (\<lambda>x. - f x) xs)"
  shows "sorted (map f (rev (take l (drop k xs))))"
proof -
  have "sorted (map (\<lambda>x. - f x) (take l (drop k xs)))"
    using assms by (simp add: sorted_map sorted_wrt_take sorted_wrt_drop)
  from sorted_rev_map_neg[OF this] show ?thesis by (simp add: rev_map)
qed

lemma getChatMessages_found:
  assumes "findChatById L (chats s) chatId = Inr (Some c)"
  shows "getChatMessages L s chatId q =
     Inr \<lparr>p_data = rev (map (\<lambda>m. toMessageResponse (populateSender (users s) m) m)
                      (take (nat (effectiveLimit q))
                         (drop (nat ((effectivePage q - 1) * effectiveLimit q))
                            (chatMessagesDesc L s chatId)))),
          p_page = effectivePage q,
          p_limit = effectiveLimit q,
          p_total = length (filter (\<lambda>m. m_chatId m = mkId L chatId) (messages s)),
          p_totalPages = ceilDiv (length (filter (\<lambda>m. m_chatId m = mkId L chatId) (messages s)))
                           (effectiveLimit q)\<rparr>"
  using assms findChatById_valid[OF assms] by (simp add: getChatMessages_def Let_def)

lemma pageData_found:
  assumes "findChatById L (chats s) chatId = Inr (Some c)" and "0 < k"
  shows "pageData L s chatId (q_limit q) k =
     rev (map (\<lambda>m. toMessageResponse (populateSender (users s) m) m)
            (take (nat (effectiveLimit q))
               (drop ((k - 1) * nat (effectiveLimit q)) (chatMessagesDesc L s chatId))))"
proof -
  have l: "effectiveLimit \<lparr>q_page = Some (int k), q_limit = q_limit q\<rparr> = effectiveLimit q"
    by (simp add: effectiveLimit_def)
  have "nat ((int k - 1) * effectiveLimit q) = (k - 1) * nat (effectiveLimit q)"
    using assms(2) effectiveLimit_range[of q] by (simp add: nat_mult_distrib of_nat_diff)
  then show ?thesis
    using assms(2) by (simp add: pageData_def getChatMessages_found[OF assms(1)] l effectivePage_nat)
qed

lemma pages_concat:
  assumes "findChatById L (chats s) chatId = Inr (Some c)"
  shows "concat (map (pageData L s chatId (q_limit q))
            (rev [1..<Suc (nat (ceilDiv (length (chatMessagesDesc L s chatId)) (effectiveLimit q)))]))
         = history L s chatId"
proof -
  let ?D = "chatMessagesDesc L s chatId"
  let ?l = "nat (effectiveLimit q)"
  let ?N = "nat (ceilDiv (length ?D) (effectiveLimit q))"
  let ?f = "\<lambda>m. toMessageResponse (populateSender (users s) m) m"
  let ?chunk = "\<lambda>k. take ?l (drop ((k - 1) * ?l) ?D)"
  have lp: "0 < effectiveLimit q" using effectiveLimit_range[of q] by simp
  have pd: "map (pageData L s chatId (q_limit q)) (rev [1..<Suc ?N])
            = map (\<lambda>k. rev (map ?f (?chunk k))) (rev [1..<Suc ?N])"
  proof (rule map_cong[OF refl])
    fix k assume "k \<in> set (rev [1..<Suc ?N])"
    then have "0 < k" by (simp del: upt_Suc)
    from pageData_found[OF assms this, of q]
    show "pageData L s chatId (q_limit q) k = rev (map ?f (?chunk k))" .
  qed
  have c1: "concat (map (\<lambda>k. rev (map ?f (?chunk k))) (rev [1..<Suc ?N]))
        = rev (concat (map (\<lambda>k. map ?f (?chunk k)) [1..<Suc ?N]))"
    by (simp only: rev_concat rev_map map_map comp_def rev_rev_ident)
  have c2: "concat (map (\<lambda>k. map ?f (?chunk k)) [1..<Suc ?N]) = map ?f (concat (map ?chunk [1..<Suc ?N]))"
    by (simp only: map_concat map_map comp_def)
  have c3: "concat (map ?chunk [1..<Suc ?N]) = take (?N * ?l) ?D" by (rule concat_chunks)
  have c4: "take (?N * ?l) ?D = ?D" using ceilDiv_covers[OF lp, of "length ?D"] by simp
  have "concat (map (pageData L s chatId (q_limit q)) (rev [1..<Suc ?N])) = rev (map ?f ?D)"
    by (simp only: pd c1 c2 c3 c4)
  then show ?thesis by (simp only: history_def rev_map)
qed

lemma mset_concat_rev: "mset (concat (rev xss)) = mset (concat xss)"
  by (induction xss) simp_all


lemma sorted_history: "sorted (map mr_createdAt (history L s chatId))"
proof -
  have "map mr_createdAt (history L s chatId) = rev (map m_createdAt (chatMessagesDesc L s chatId))"
    by (simp add: history_def rev_map comp_def mr_createdAt_resp)
  then show ?thesis using sorted_rev_map_neg[OF sorted_chatMessagesDesc[of L s chatId]] by simp
qed

lemma mset_history:
  "mset (history L s chatId) =
   mset (map (\<lambda>m. toMessageResponse (populateSender (users s) m) m)
          (filter (\<lambda>m. m_chatId m = mkId L chatId) (messages s)))"
  by (simp add: history_def chatMessagesDesc_def)

text \<open>
  Claim C5, as the code has it. For an existing chat and any page/limit query,
  \<open>getChatMessages\<close> succeeds with page = max(1, given page, 1 when absent) and
  limit = the given limit clamped to [1,100], 50 when the limit is absent or zero;
  the total is the length of the chat's history and totalPages = ceil(total / limit);
  the returned page is in non-decreasing creation-time order; page 1 holds the newest
  messages, so the pages concatenated in the order N, ..., 1 are the chronological
  history, and the pages 1..N together hold every message of the history exactly
  once. The history is sorted by creation time and holds exactly the stored messages
  of the chat.
\<close>

theorem getChatMessages_pagination:
  assumes "findChatById L (chats s) chatId = Inr (Some c)"
  shows "\<exists>r. getChatMessages L s chatId q = Inr r
     \<and> p_page r = max 1 (case q_page q of None \<Rightarrow> 1 | Some p \<Rightarrow> p)
     \<and> p_limit r = (case q_limit q of None \<Rightarrow> 50
                    | Some l \<Rightarrow> if l = 0 then 50 else min 100 (max 1 l))
     \<and> p_total r = length (history L s chatId)
     \<and> p_totalPages r = \<lceil>real (p_total r) / real_of_int (p_limit r)\<rceil>
     \<and> sorted (map mr_createdAt (p_data r))
     \<and> concat (map (pageData L s chatId (q_limit q)) (rev [1..<Suc (nat (p_totalPages r))]))
         = history L s chatId
     \<and> mset (concat (map (pageData L s chatId (q_limit q)) [1..<Suc (nat (p_totalPages r))]))
         = mset (history L s chatId)
     \<and> sorted (map mr_createdAt (history L s chatId))
     \<and> mset (history L s chatId) =
         mset (map (\<lambda>m. toMessageResponse (populateSender (users s) m) m)
                (filter (\<lambda>m. m_chatId m = mkId L chatId) (messages s)))"
proof -
  let ?D = "chatMessagesDesc L s chatId"
  let ?f = "\<lambda>m. toMessageResponse (populateSender (users s) m) m"
  let ?tot = "length (filter (\<lambda>m. m_chatId m = mkId L chatId) (messages s))"
  let ?page = "take (nat (effectiveLimit q))
                 (drop (nat ((effectivePage q - 1) * effectiveLimit q)) ?D)"
  let ?r = "\<lparr>p_data = rev (map ?f ?page), p_page = effectivePage q, p_limit = effectiveLimit q,
            p_total = ?tot, p_totalPages = ceilDiv ?tot (effectiveLimit q)\<rparr>"
  have lp: "0 < effectiveLimit q" using effectiveLimit_range[of q] by simp
  have g: "getChatMessages L s chatId q = Inr ?r" by (rule getChatMessages_found[OF assms])
  have t: "?tot = length (history L s chatId)"
    by (simp add: history_def length_chatMessagesDesc)
  have tp: "ceilDiv ?tot (effectiveLimit q) = \<lceil>real ?tot / real_of_int (effectiveLimit q)\<rceil>"
    by (rule ceilDiv_ceiling[OF lp])
  have sp: "sorted (map mr_createdAt (rev (map ?f ?page)))"
  proof -
    have "map mr_createdAt (rev (map ?f ?page)) = map m_createdAt (rev ?page)"
      by (simp add: rev_map comp_def mr_createdAt_resp)
    then show ?thesis using sorted_slice_desc[OF sorted_chatMessagesDesc[of L s chatId]] by simp
  qed
  have cc: "concat (map (pageData L s chatId (q_limit q))
              (rev [1..<Suc (nat (ceilDiv ?tot (effectiveLimit q)))])) = history L s chatId"
    using pages_concat[OF assms, of q] by (simp only: length_chatMessagesDesc)
  have cm: "mset (concat (map (pageData L s chatId (q_limit q))
              [1..<Suc (nat (ceilDiv ?tot (effectiveLimit q)))])) = mset (history L s chatId)"
  proof -
    have "mset (concat (map (pageData L s chatId (q_limit q))
              [1..<Suc (nat (ceilDiv ?tot (effectiveLimit q)))]))
        = mset (concat (rev (map (pageData L s chatId (q_limit q))
              [1..<Suc (nat (ceilDiv ?tot (effectiveLimit q)))])))"
      by (simp only: mset_concat_rev)
    then show ?thesis using cc by (simp only: rev_map)
  qed
  show ?thesis
  proof (intro exI[of _ ?r] conjI)
    show "getChatMessages L s chatId q = Inr ?r" by (rule g)
    show "p_page ?r = max 1 (case q_page q of None \<Rightarrow> 1 | Some p \<Rightarrow> p)"
      by (simp add: effectivePage_value)
    show "p_limit ?r = (case q_limit q of None \<Rightarrow> 50
                    | Some l \<Rightarrow> if l = 0 then 50 else min 100 (max 1 l))"
      by (simp add: effectiveLimit_value)
    show "p_total ?r = length (history L s chatId)" using t by simp
    show "p_totalPages ?r = \<lceil>real (p_total ?r) / real_of_int (p_limit ?r)\<rceil>"
      using tp by simp
    show "sorted (map mr_createdAt (p_data ?r))" using sp by simp
    show "concat (map (pageData L s chatId (q_limit q)) (rev [1..<Suc (nat (p_totalPages ?r))]))
         = history L s chatId" using cc by simp
    show "mset (concat (map (pageData L s chatId (q_limit q)) [1..<Suc (nat (p_totalPages ?r))]))
         = mset (history L s chatId)" using cm by simp
    show "sorted (map mr_createdAt (history L s chatId))" by (rule sorted_history)
    show "mset (history L s chatId) = mset (map ?f
                (filter (\<lambda>m. m_chatId m = mkId L chatId) (messages s)))"
      by (rule mset_history)
  qed
qed

lemma find_history_chat:
  "findChatById hexIds (chats historyStore) chat1 = Inr (Some acceptedChat)"
  by (simp add: historyStore_def find_sample_chat acceptedChat_def pendingChat_def)

lemma desc_historyStore:
  "chatMessagesDesc hexIds historyStore chat1 =
     [sampleMessage msg3 alice ''three'' 3002, sampleMessage msg2 bob ''two'' 3001,
      sampleMessage msg1 alice ''one'' 3000]"
  by (simp add: chatMessagesDesc_def historyStore_def hex_mkId sampleMessage_def)

lemma mr_content_resp: "mr_content (toMessageResponse r m) = m_content m"
  by (simp add: toMessageResponse_def)

lemma history_sample:
  "map mr_content (history hexIds historyStore chat1) = [ascii ''one'', ascii ''two'', ascii ''three'']"
  by (simp add: history_def desc_historyStore mr_content_resp) (simp add: sampleMessage_def)

lemma pageData_sample:
  "map mr_content (pageData hexIds historyStore chat1 (Some 2) 1) = [ascii ''two'', ascii ''three'']"
  "map mr_content (pageData hexIds historyStore chat1 (Some 2) 2) = [ascii ''one'']"
  using pageData_found[OF find_history_chat, of 1 "\<lparr>q_page = None, q_limit = Some 2\<rparr>"]
    pageData_found[OF find_history_chat, of 2 "\<lparr>q_page = None, q_limit = Some 2\<rparr>"]
  by (simp_all add: desc_historyStore effectiveLimit_def mr_content_resp rev_map sampleMessage_def)

text \<open>
  Claim C5 as stated fails twice. With three messages and limit 2 there are two
  pages, and pages 1 and 2 concatenated in that order are "two, three, one", not the
  history "one, two, three". And a given limit of 0 yields the limit 50, not 1.
\<close>

theorem getChatMessages_pagination_counterexample:
  "map mr_content (concat (map (pageData hexIds historyStore chat1 (Some 2)) [1, 2]))
     = [ascii ''two'', ascii ''three'', ascii ''one'']
   \<and> map mr_content (history hexIds historyStore chat1) = [ascii ''one'', ascii ''two'', ascii ''three'']
   \<and> map_sum id p_totalPages
        (getChatMessages hexIds historyStore chat1 \<lparr>q_page = None, q_limit = Some 2\<rparr>) = Inr 2
   \<and> map_sum id p_limit
        (getChatMessages hexIds historyStore chat1 \<lparr>q_page = None, q_limit = Some 0\<rparr>) = Inr 50"
proof (intro conjI)
  show "map mr_content (concat (map (pageData hexIds historyStore chat1 (Some 2)) [1, 2]))
     = [ascii ''two'', ascii ''three'', ascii ''one'']"
    by (simp del: One_nat_def add: pageData_sample)
  show "map mr_content (history hexIds historyStore chat1) = [ascii ''one'', ascii ''two'', ascii ''three'']"
    by (rule history_sample)
  show "map_sum id p_totalPages
        (getChatMessages hexIds historyStore chat1 \<lparr>q_page = None, q_limit = Some 2\<rparr>) = Inr 2"
  proof -
    have "length (filter (\<lambda>m. m_chatId m = mkId hexIds chat1) (messages historyStore)) = 3"
      by (simp add: historyStore_def hex_mkId sampleMessage_def)
    then show ?thesis
      by (simp add: getChatMessages_found[OF find_history_chat] effectiveLimit_def ceilDiv_def)
  qed
  show "map_sum id p_limit
        (getChatMessages hexIds historyStore chat1 \<lparr>q_page = None, q_limit = Some 0\<rparr>) = Inr 50"
    by (simp add: getChatMessages_found[OF find_history_chat] effectiveLimit_def)
qed

theorem getChatMessages_pagination_witness:
  "findChatById hexIds (chats historyStore) chat1 = Inr (Some acceptedChat)
   \<and> (\<exists>r. getChatMessages hexIds historyStore chat1 \<lparr>q_page = Some 0, q_limit = Some 2\<rparr> = Inr r
         \<and> p_page r = 1 \<and> p_limit r = 2 \<and> p_total r = 3
         \<and> sorted (map mr_createdAt (p_data r))
         \<and> concat (map (pageData hexIds historyStore chat1 (Some 2))
                      (rev [1..<Suc (nat (p_totalPages r))]))
             = history hexIds historyStore chat1)"
proof -
  have l: "length (history hexIds historyStore chat1) = 3"
    using arg_cong[OF history_sample, of length] by simp
  from getChatMessages_pagination[OF find_history_chat, of "\<lparr>q_page = Some 0, q_limit = Some 2\<rparr>"]
  obtain r where r: "getChatMessages hexIds historyStore chat1 \<lparr>q_page = Some 0, q_limit = Some 2\<rparr> = Inr r"
    "p_page r = 1" "p_limit r = 2" "p_total r = length (history hexIds historyStore chat1)"
    "sorted (map mr_createdAt (p_data r))"
    "concat (map (pageData hexIds historyStore chat1 (Some 2))
                      (rev [1..<Suc (nat (p_totalPages r))]))
             = history hexIds historyStore chat1"
    by (simp del: upt_Suc) fastforce
  show ?thesis
    using r l by (intro conjI find_history_chat exI[of _ r]) simp_all
qed

section \<open>Deleting a message\<close>

text \<open>
  Claim C7, evaluated on the code. Bob asks to delete his own stored message. The
  service has no \<open>deleteMessage\<close>, so the call raises a TypeError, which the handler
  catches: the only event is one ERROR to bob's socket, nothing is thrown, the store
  is unchanged, no MESSAGE_DELETED reaches the online participant alice, and the
  message is still stored and still listed.
\<close>

theorem handleMessageDelete_no_service_method:
  "handleMessageDelete hexIds ''socket-b'' [alice \<mapsto> ''socket-a''] historyStore msg2 bob =
     \<lparr>emitted = [(''socket-b'', ERROR TypeError ''An error occurred while deleting the message'')],
      thrown = None,
      after = historyStore\<rparr>
   \<and> find (\<lambda>m. toString (m_id m) = msg2) (messages historyStore)
       = Some (sampleMessage msg2 bob ''two'' 3001)
   \<and> map mr_id (pageData hexIds historyStore chat1 None 1) = [msg1, msg2, msg3]"
proof (intro conjI)
  have n: "msg2 \<noteq> []" "bob \<noteq> []" by (simp_all add: msg2_def bob_def)
  then show "handleMessageDelete hexIds ''socket-b'' [alice \<mapsto> ''socket-a''] historyStore msg2 bob =
     \<lparr>emitted = [(''socket-b'', ERROR TypeError ''An error occurred while deleting the message'')],
      thrown = None,
      after = historyStore\<rparr>"
    by (simp add: handleMessageDelete_def deleteMessage_def)
  show "find (\<lambda>m. toString (m_id m) = msg2) (messages historyStore)
       = Some (sampleMessage msg2 bob ''two'' 3001)"
    by (simp add: historyStore_def sampleMessage_def msg1_def msg2_def)
  show "map mr_id (pageData hexIds historyStore chat1 None 1) = [msg1, msg2, msg3]"
    using pageData_found[OF find_history_chat, of 1 "\<lparr>q_page = None, q_limit = None\<rparr>"]
    by (simp add: desc_historyStore effectiveLimit_def toMessageResponse_def sampleMessage_def)
qed

end
